theory Spec2Isabelle
  imports Main "HOL-Library.Word"
begin

section \<open>Data model of kernel/core/disk.c\<close>

text \<open>
  The headers \<^verbatim>\<open>core/disk.h\<close>, \<^verbatim>\<open>fs/vfs.h\<close>, \<^verbatim>\<open>util/list.h\<close>, \<^verbatim>\<open>util/math.h\<close>,
  \<^verbatim>\<open>util/panic.h\<close> and \<^verbatim>\<open>core/ahci.h\<close> are not under the sources; the types below hold
  the fields that \<^verbatim>\<open>disk.c\<close> reads and writes. Sizes, sector addresses and the sector size
  are 64-bit words, as the \<^verbatim>\<open>uint64_t\<close> arithmetic of \<^verbatim>\<open>__disk_do_size\<close> makes them.

  A name of the C file that starts with underscores is written without them
  (\<open>disk_do_raw\<close>, \<open>disk_do_size\<close>, \<open>disk_part_block\<close>, \<open>disk_part_find_vfs\<close>), and the
  parameter \<^verbatim>\<open>size\<close> is \<open>sz\<close>.

  The switch of \<^verbatim>\<open>__disk_do_raw\<close> knows one controller kind, \<^verbatim>\<open>DISK_CONTROLLER_AHCI\<close>;
  every other value of the enum takes its \<^verbatim>\<open>default\<close> branch.
\<close>

datatype disk_controller_t = DISK_CONTROLLER_AHCI | DISK_CONTROLLER_OTHER nat

datatype disk_op_t = DISK_OP_READ | DISK_OP_WRITE | DISK_OP_INFO

text \<open>
  What ends a call without a return value: \<^verbatim>\<open>panic()\<close>, the division trap of
  \<^verbatim>\<open>size % disk->sector_size\<close> on a zero sector size, and a \<^verbatim>\<open>memcpy\<close> outside the
  memory it was given (undefined in C).
\<close>

datatype error = Panic | DivideFault | MemFault

text \<open>
  A partition node. \<open>p_addr\<close> is the address of the node (the handle that
  \<^verbatim>\<open>disk_part_add\<close> returns and that a mount holds in \<^verbatim>\<open>type_data\<close>); the \<^verbatim>\<open>next\<close>
  pointer is the order of the list \<open>parts\<close>, and the back pointer \<^verbatim>\<open>disk\<close> is the disk that
  holds the list.
\<close>

record disk_part_t =
  p_addr :: nat
  p_start :: "64 word"
  p_size :: "64 word"
  p_available :: bool

text \<open>
  A disk. \<open>data\<close> is the controller's state behind the \<^verbatim>\<open>void *data\<close> pointer. The width
  of the counter \<open>part_count\<close> is declared in the missing header, so it is the type
  parameter \<open>'w\<close>.
\<close>

record (overloaded) ('d, 'w) disk_t =
  controller :: disk_controller_t
  data :: 'd
  available :: bool
  sector_size :: "64 word"
  parts :: "disk_part_t list"
  part_count :: "'w word"

subsection \<open>Memory seen by the transfer engine\<close>

text \<open>
  Two disjoint regions: the caller's buffer and the one-sector scratch array \<^verbatim>\<open>cb\<close> of
  \<^verbatim>\<open>__disk_do_size\<close>. A pointer of the caller (the argument \<^verbatim>\<open>buf\<close>) is \<^verbatim>\<open>NULL\<close> or the
  start of the caller's buffer plus a byte offset; the pointer that a raw call hands to the
  controller is a pointer of the caller or the array \<^verbatim>\<open>cb\<close>.
\<close>

datatype bufptr = NULL | Buf "64 word"

datatype rawptr = Caller bufptr | Cb

record memory =
  caller :: "8 word list"
  cb :: "8 word list"

text \<open>
  The log of what the engine did (ghost state): every call of the controller primitive with
  its arguments and its result, and every \<^verbatim>\<open>memcpy\<close> from \<^verbatim>\<open>cb\<close> with its destination and
  its length.
\<close>

datatype event =
  RawCall disk_op_t "64 word" "64 word" rawptr bool
  | Memcpy bufptr "64 word"

text \<open>
  \<open>stack\<close> holds the bytes that the automatic array \<^verbatim>\<open>cb\<close> has when it is declared: they
  are indeterminate, so they are an input.
\<close>

record iostate =
  mem :: memory
  stack :: "nat \<Rightarrow> 8 word"
  trace :: "event list"

text \<open>
  The controller primitive \<^verbatim>\<open>ahci_port_do(data, op, offset, sector_count, buf)\<close> is not under
  the sources: it is a parameter of the model, a function of the controller's state and of
  the memory that returns its boolean and both updated.
\<close>

type_synonym 'd port_do_t =
  "'d \<Rightarrow> disk_op_t \<Rightarrow> 64 word \<Rightarrow> 64 word \<Rightarrow> rawptr \<Rightarrow> memory \<Rightarrow> bool \<times> 'd \<times> memory"

type_synonym ('d, 'w) io_result = "(error + bool \<times> ('d, 'w) disk_t \<times> iostate) option"

section \<open>Controller dispatch and the sector translation engine\<close>

text \<open>
  Modelled from the spec: \<^verbatim>\<open>panic\<close> (util/panic.h) is not under the sources. The spec says
  that the system halts immediately and nothing is returned, so the \<^verbatim>\<open>default\<close> branch ends
  in \<open>Inl Panic\<close> and the \<^verbatim>\<open>return false\<close> behind it is never reached.
\<close>

definition disk_do_raw ::
  "'d port_do_t \<Rightarrow> ('d, 'w::len) disk_t \<Rightarrow> disk_op_t \<Rightarrow> 64 word \<Rightarrow> 64 word \<Rightarrow> rawptr \<Rightarrow> iostate
    \<Rightarrow> error + bool \<times> ('d, 'w) disk_t \<times> iostate" where
  "disk_do_raw ahci_port_do disk op lba sector_count buf st =
     (case controller disk of
        DISK_CONTROLLER_AHCI \<Rightarrow>
          (case ahci_port_do (data disk) op lba sector_count buf (mem st) of
             (ret, d', m') \<Rightarrow>
               Inr (ret, disk\<lparr>data := d'\<rparr>,
                    st\<lparr>mem := m', trace := trace st @ [RawCall op lba sector_count buf ret]\<rparr>))
      | DISK_CONTROLLER_OTHER k \<Rightarrow> Inl Panic)"

text \<open>
  Modelled from the spec: the macro \<^verbatim>\<open>div_floor\<close> (util/math.h) is not under the sources;
  the spec gives \<^verbatim>\<open>sector_count = floor(size / sector_size)\<close>.
\<close>

definition div_floor :: "64 word \<Rightarrow> 64 word \<Rightarrow> 64 word" where
  "div_floor x y = x div y"

text \<open>Pointer arithmetic \<^verbatim>\<open>buf + buf_offset\<close>.\<close>

fun ptr_add :: "bufptr \<Rightarrow> 64 word \<Rightarrow> bufptr" where
  "ptr_add (Buf a) n = Buf (a + n)"
| "ptr_add NULL n = NULL"

text \<open>
  \<^verbatim>\<open>memcpy(dst, cb, n)\<close>: the first \<open>n\<close> bytes of \<^verbatim>\<open>cb\<close> replace the \<open>n\<close> bytes of the
  caller's buffer at \<open>dst\<close>. A \<^verbatim>\<open>NULL\<close> destination, or a length that leaves either
  region, is undefined in C and a \<open>MemFault\<close> here.
\<close>

definition memcpy :: "bufptr \<Rightarrow> 64 word \<Rightarrow> memory \<Rightarrow> error + memory" where
  "memcpy dst n m =
     (case dst of
        Buf a \<Rightarrow>
          if unat a + unat n \<le> length (caller m) \<and> unat n \<le> length (cb m)
          then Inr (m\<lparr>caller := take (unat a) (caller m) @ take (unat n) (cb m)
                                  @ drop (unat a + unat n) (caller m)\<rparr>)
          else Inl MemFault
      | NULL \<Rightarrow> Inl MemFault)"

text \<open>
  The loop \<^verbatim>\<open>while (size != rem)\<close> of \<^verbatim>\<open>__disk_do_size\<close>. It returns the flag "no raw call
  failed", the buffer offset it reached, the disk and the state. \<open>None\<close> is a loop that never
  ends.
\<close>

partial_function (option) disk_do_size_loop ::
  "'d port_do_t \<Rightarrow> disk_op_t \<Rightarrow> 64 word \<Rightarrow> 64 word \<Rightarrow> bufptr \<Rightarrow> 64 word \<Rightarrow> 64 word
    \<Rightarrow> ('d, 'w::len) disk_t \<Rightarrow> iostate
    \<Rightarrow> (error + bool \<times> 64 word \<times> ('d, 'w) disk_t \<times> iostate) option" where
  "disk_do_size_loop ahci_port_do op lba rem buf sz buf_offset disk st =
     (if sz \<noteq> rem then
        (case disk_do_raw ahci_port_do disk op lba 1 (Caller (ptr_add buf buf_offset)) st of
           Inl e \<Rightarrow> Some (Inl e)
         | Inr (ret, disk', st') \<Rightarrow>
             if \<not> ret then Some (Inr (False, buf_offset, disk', st'))
             else disk_do_size_loop ahci_port_do op lba rem buf
                    (sz - sector_size disk') (buf_offset + sector_size disk') disk' st')
      else Some (Inr (True, buf_offset, disk, st)))"

text \<open>
  The code from the label \<^verbatim>\<open>do_copy\<close> on: the scratch array of one sector, one raw call on
  it, the \<^verbatim>\<open>memcpy\<close> of \<open>rem\<close> bytes from it into the caller's buffer, and the result of the
  raw call returned.
\<close>

definition do_copy ::
  "'d port_do_t \<Rightarrow> ('d, 'w::len) disk_t \<Rightarrow> disk_op_t \<Rightarrow> 64 word \<Rightarrow> 64 word \<Rightarrow> bufptr \<Rightarrow> 64 word
    \<Rightarrow> iostate \<Rightarrow> error + bool \<times> ('d, 'w) disk_t \<times> iostate" where
  "do_copy ahci_port_do disk op lba rem buf buf_offset st =
     (if rem = 0 then Inr (True, disk, st)
      else
        let st1 = st\<lparr>mem := (mem st)\<lparr>cb := map (stack st) [0..<unat (sector_size disk)]\<rparr>\<rparr>
        in case disk_do_raw ahci_port_do disk op lba 1 Cb st1 of
             Inl e \<Rightarrow> Inl e
           | Inr (ret, disk2, st2) \<Rightarrow>
               (case memcpy (ptr_add buf buf_offset) rem (mem st2) of
                  Inl e \<Rightarrow> Inl e
                | Inr m \<Rightarrow>
                    Inr (ret, disk2,
                         st2\<lparr>mem := m,
                             trace := trace st2 @ [Memcpy (ptr_add buf buf_offset) rem]\<rparr>)))"

definition disk_do_size ::
  "'d port_do_t \<Rightarrow> ('d, 'w::len) disk_t \<Rightarrow> disk_op_t \<Rightarrow> 64 word \<Rightarrow> 64 word \<Rightarrow> bufptr \<Rightarrow> iostate
    \<Rightarrow> ('d, 'w) io_result" where
  "disk_do_size ahci_port_do disk op lba sz buf st =
     (if sector_size disk = 0 then Some (Inl DivideFault)
      else
        let sector_count = div_floor sz (sector_size disk);
            rem = sz mod sector_size disk
        in if rem = 0 then Some (disk_do_raw ahci_port_do disk op lba sector_count (Caller buf) st)
           else
             (case (if sz < sector_size disk then Some (Inr (True, 0, disk, st))
                    else disk_do_size_loop ahci_port_do op lba rem buf sz 0 disk st) of
                None \<Rightarrow> None
              | Some (Inl e) \<Rightarrow> Some (Inl e)
              | Some (Inr (ok, buf_offset, disk1, st1)) \<Rightarrow>
                  if \<not> ok then Some (Inr (False, disk1, st1))
                  else Some (do_copy ahci_port_do disk1 op lba rem buf buf_offset st1)))"

definition disk_do ::
  "'d port_do_t \<Rightarrow> ('d, 'w::len) disk_t \<Rightarrow> disk_op_t \<Rightarrow> 64 word \<Rightarrow> 64 word \<Rightarrow> bufptr \<Rightarrow> iostate
    \<Rightarrow> ('d, 'w) io_result" where
  "disk_do ahci_port_do disk op offset sz buf st = disk_do_size ahci_port_do disk op offset sz buf st"

section \<open>Partitions and the mount registry\<close>

text \<open>
  Modelled from the spec: the macros \<^verbatim>\<open>slist_find\<close> and \<^verbatim>\<open>slist_add\<close> (util/list.h) are not
  under the sources. A singly linked list is the list of its nodes in link order;
  \<^verbatim>\<open>slist_find\<close> yields the first node that the comparer accepts (or leaves \<^verbatim>\<open>NULL\<close>), and
  \<^verbatim>\<open>slist_add\<close> links the node behind the last one, as the spec's "appends" says.
\<close>

definition slist_find :: "('a \<Rightarrow> bool) \<Rightarrow> 'a list \<Rightarrow> 'a option" where
  "slist_find comparer head = List.find comparer head"

definition slist_add :: "'a list \<Rightarrow> 'a \<Rightarrow> 'a list" where
  "slist_add head entry = head @ [entry]"

definition disk_part_match :: "64 word \<Rightarrow> 64 word \<Rightarrow> disk_part_t \<Rightarrow> bool" where
  "disk_part_match start sz p1 = (p_start p1 = start \<and> p_size p1 = sz)"

text \<open>
  \<^verbatim>\<open>disk_part_add\<close>. The disk pointer may be \<^verbatim>\<open>NULL\<close> (\<open>None\<close>). \<open>vmm_alloc\<close> is what the
  allocator returns when it is asked for the node: \<open>None\<close> for \<^verbatim>\<open>NULL\<close>, else the address
  of the block. \<^verbatim>\<open>bzero\<close> leaves \<^verbatim>\<open>available\<close> false, and nothing sets it afterwards. The
  result is the returned pointer and the disk.
\<close>

definition disk_part_add ::
  "nat option \<Rightarrow> ('d, 'w::len) disk_t option \<Rightarrow> 64 word \<Rightarrow> 64 word
    \<Rightarrow> nat option \<times> ('d, 'w) disk_t option" where
  "disk_part_add vmm_alloc disk start sz =
     (case disk of
        None \<Rightarrow> (None, None)
      | Some d \<Rightarrow>
          (case slist_find (disk_part_match start sz) (parts d) of
             Some new \<Rightarrow> (Some (p_addr new), Some d)
           | None \<Rightarrow>
               (case vmm_alloc of
                  None \<Rightarrow> (None, Some d)
                | Some a \<Rightarrow>
                    (Some a,
                     Some (d\<lparr>parts := slist_add (parts d)
                                \<lparr>p_addr = a, p_start = start, p_size = sz, p_available = False\<rparr>,
                             part_count := part_count d + 1\<rparr>)))))"

definition disk_part_block :: "('d, 'w::len) disk_t option \<Rightarrow> ('d, 'w) disk_t option" where
  "disk_part_block disk =
     (case disk of
        None \<Rightarrow> None
      | Some d \<Rightarrow> Some (d\<lparr>parts := map (\<lambda>trav. trav\<lparr>p_available := False\<rparr>) (parts d)\<rparr>))"

text \<open>
  Modelled from the spec: the mount registry (fs/vfs.h) is not under the sources. It is the
  list of its entries in the order in which \<^verbatim>\<open>vfs_next\<close> walks them; \<^verbatim>\<open>vfs_register\<close> adds
  an entry of the given kind for the given handle, and \<^verbatim>\<open>vfs_unregister\<close> takes the given
  entry out.
\<close>

datatype vfs_type_t = VFS_TYPE_DISK | VFS_TYPE_OTHER nat

record vfs_t =
  vfs_type :: vfs_type_t
  type_data :: nat

definition vfs_register :: "vfs_type_t \<Rightarrow> nat \<Rightarrow> vfs_t list \<Rightarrow> vfs_t list" where
  "vfs_register ty dat vs = vs @ [\<lparr>vfs_type = ty, type_data = dat\<rparr>]"

definition vfs_unregister :: "vfs_t \<Rightarrow> vfs_t list \<Rightarrow> vfs_t list" where
  "vfs_unregister cur vs = remove1 cur vs"

definition disk_part_find_vfs :: "nat \<Rightarrow> vfs_t list \<Rightarrow> vfs_t option" where
  "disk_part_find_vfs part vs =
     List.find (\<lambda>cur. vfs_type cur = VFS_TYPE_DISK \<and> type_data cur = part) vs"

text \<open>
  The loop of \<^verbatim>\<open>disk_part_clear\<close> from the node \<^verbatim>\<open>trav\<close> on: the result is the list of the
  nodes that stay linked, the counter and the registry. Both unlink branches (with and
  without a predecessor) drop \<^verbatim>\<open>trav\<close> and go on with its successor.
\<close>

fun disk_part_clear_loop ::
  "disk_part_t list \<Rightarrow> ('w::len) word \<Rightarrow> vfs_t list \<Rightarrow> disk_part_t list \<times> 'w word \<times> vfs_t list" where
  "disk_part_clear_loop [] pc vs = ([], pc, vs)"
| "disk_part_clear_loop (trav # rest) pc vs =
     (let cur = disk_part_find_vfs (p_addr trav) vs
      in if p_available trav then
           (case disk_part_clear_loop rest pc
                   (if cur = None then vfs_register VFS_TYPE_DISK (p_addr trav) vs else vs) of
              (kept, pc', vs') \<Rightarrow> (trav # kept, pc', vs'))
         else
           disk_part_clear_loop rest (pc - 1)
             (case cur of None \<Rightarrow> vs | Some c \<Rightarrow> vfs_unregister c vs))"

definition disk_part_clear ::
  "('d, 'w::len) disk_t option \<Rightarrow> vfs_t list \<Rightarrow> ('d, 'w) disk_t option \<times> vfs_t list" where
  "disk_part_clear disk vs =
     (case disk of
        None \<Rightarrow> (None, vs)
      | Some d \<Rightarrow>
          (case disk_part_clear_loop (parts d) (part_count d) vs of
             (kept, pc, vs') \<Rightarrow> (Some (d\<lparr>parts := kept, part_count := pc\<rparr>), vs')))"

section \<open>The scan\<close>

text \<open>
  The table parsers \<^verbatim>\<open>gpt_load\<close> and \<^verbatim>\<open>mbr_load\<close> are not under the sources: they are
  parameters, functions of the disk and the I/O state. \<open>CONFIG_CORE_GPT\<close> is the
  configuration switch of the \<^verbatim>\<open>#ifdef\<close>.
\<close>

type_synonym ('d, 'w) loader = "('d, 'w) disk_t \<Rightarrow> iostate \<Rightarrow> ('d, 'w) io_result"

type_synonym ('d, 'w) scan_result =
  "(error + bool \<times> ('d, 'w) disk_t \<times> iostate \<times> vfs_t list) option"

text \<open>The two parser calls; the flag of the result says whether control goes to \<^verbatim>\<open>done\<close>.\<close>

definition disk_scan_load ::
  "bool \<Rightarrow> ('d, 'w::len) loader \<Rightarrow> ('d, 'w) loader \<Rightarrow> ('d, 'w) disk_t \<Rightarrow> iostate
    \<Rightarrow> ('d, 'w) io_result" where
  "disk_scan_load CONFIG_CORE_GPT gpt_load mbr_load disk st =
     (case (if CONFIG_CORE_GPT then gpt_load disk st else Some (Inr (False, disk, st))) of
        None \<Rightarrow> None
      | Some (Inl e) \<Rightarrow> Some (Inl e)
      | Some (Inr (loaded, disk', st')) \<Rightarrow>
          if loaded then Some (Inr (True, disk', st')) else mbr_load disk' st')"

text \<open>
  \<^verbatim>\<open>disk_scan\<close> dereferences its disk at once, so the disk is not \<^verbatim>\<open>NULL\<close> here; the
  \<open>None\<close> branches of the two calls that check for \<^verbatim>\<open>NULL\<close> are never taken.
\<close>

definition disk_scan ::
  "'d port_do_t \<Rightarrow> bool \<Rightarrow> ('d, 'w::len) loader \<Rightarrow> ('d, 'w) loader \<Rightarrow> ('d, 'w) disk_t \<Rightarrow> iostate
    \<Rightarrow> vfs_t list \<Rightarrow> ('d, 'w) scan_result" where
  "disk_scan ahci_port_do CONFIG_CORE_GPT gpt_load mbr_load disk st vs =
     (case disk_part_block (Some (disk\<lparr>available := False\<rparr>)) of
        None \<Rightarrow> Some (Inl MemFault)
      | Some disk1 \<Rightarrow>
          (case disk_do ahci_port_do disk1 DISK_OP_INFO 0 0 NULL st of
             None \<Rightarrow> None
           | Some (Inl e) \<Rightarrow> Some (Inl e)
           | Some (Inr (ok, disk2, st2)) \<Rightarrow>
               if \<not> ok then Some (Inr (False, disk2, st2, vs))
               else
                 (case disk_scan_load CONFIG_CORE_GPT gpt_load mbr_load disk2 st2 of
                    None \<Rightarrow> None
                  | Some (Inl e) \<Rightarrow> Some (Inl e)
                  | Some (Inr (loaded, disk3, st3)) \<Rightarrow>
                      if \<not> loaded then Some (Inr (False, disk3, st3, vs))
                      else
                        (case disk_part_clear (Some disk3) vs of
                           (None, vs') \<Rightarrow> Some (Inl MemFault)
                         | (Some disk4, vs') \<Rightarrow>
                             Some (Inr (True, disk4\<lparr>available := True\<rparr>, st3, vs'))))))"

text \<open>
  Modelled from the spec: the table parsers \<^verbatim>\<open>mbr_load\<close> and \<^verbatim>\<open>gpt_load\<close> (core/mbr.h,
  core/gpt.h) are not under the sources. By the spec a parser answers whether it recognised
  a table, and when it did, it has called \<^verbatim>\<open>disk_part_add(start, size)\<close> for every partition
  it found; that call is all it does to the disk. \<open>table\<close> is what the parser finds on the
  disk: \<open>None\<close> when it recognises no table, else for each partition of the table its start,
  its size and what the allocator answers if \<^verbatim>\<open>disk_part_add\<close> asks for a node.
\<close>

fun report_parts ::
  "(nat option \<times> 64 word \<times> 64 word) list \<Rightarrow> ('d, 'w::len) disk_t \<Rightarrow> ('d, 'w) disk_t" where
  "report_parts [] disk = disk"
| "report_parts ((vmm_alloc, start, sz) # rest) disk =
     (case disk_part_add vmm_alloc (Some disk) start sz of
        (new, Some disk') \<Rightarrow> report_parts rest disk'
      | (new, None) \<Rightarrow> disk)"

definition table_load ::
  "(nat option \<times> 64 word \<times> 64 word) list option \<Rightarrow> ('d, 'w::len) loader" where
  "table_load table disk st =
     (case table of
        None \<Rightarrow> Some (Inr (False, disk, st))
      | Some found \<Rightarrow> Some (Inr (True, report_parts found disk, st)))"

section \<open>The registry of disks\<close>

definition DISK_DEFAULT_SECTOR_SIZE :: "64 word" where
  "DISK_DEFAULT_SECTOR_SIZE = 512"

text \<open>
  \<^verbatim>\<open>disk_add\<close>. \<open>dat\<close> is the \<^verbatim>\<open>data\<close> pointer (\<open>None\<close> for \<^verbatim>\<open>NULL\<close>), \<open>vmm_alloc_ok\<close>
  says whether the allocator returned a block: the code does not check, and \<^verbatim>\<open>bzero\<close> on
  \<^verbatim>\<open>NULL\<close> is a \<open>MemFault\<close>. \<open>disk_first\<close> is the list of the registered disks.
\<close>

definition disk_add ::
  "bool \<Rightarrow> disk_controller_t \<Rightarrow> 'd option \<Rightarrow> ('d, 'w::len) disk_t list
    \<Rightarrow> error + ('d, 'w) disk_t option \<times> ('d, 'w) disk_t list" where
  "disk_add vmm_alloc_ok controller' dat disk_first =
     (case dat of
        None \<Rightarrow> Inr (None, disk_first)
      | Some x \<Rightarrow>
          if \<not> vmm_alloc_ok then Inl MemFault
          else
            let new = \<lparr>controller = controller', data = x, available = False,
                       sector_size = DISK_DEFAULT_SECTOR_SIZE, parts = [], part_count = 0\<rparr>
            in Inr (Some new, slist_add disk_first new))"

section \<open>Predicates used in the statements\<close>

text \<open>Invariant I1: the counter is the number of nodes of the list.\<close>

definition part_count_ok :: "('d, 'w::len) disk_t \<Rightarrow> bool" where
  "part_count_ok d = (unat (part_count d) = length (parts d))"

text \<open>Invariant I2: no two partitions of the disk have the same start and size.\<close>

definition identities_distinct :: "('d, 'w::len) disk_t \<Rightarrow> bool" where
  "identities_distinct d = distinct (map (\<lambda>p. (p_start p, p_size p)) (parts d))"

text \<open>The mounts of a partition: the registry entries that \<^verbatim>\<open>__disk_part_find_vfs\<close> accepts.\<close>

definition mounts_of :: "nat \<Rightarrow> vfs_t list \<Rightarrow> vfs_t list" where
  "mounts_of part vs = filter (\<lambda>cur. vfs_type cur = VFS_TYPE_DISK \<and> type_data cur = part) vs"

section \<open>Sample inputs\<close>

text \<open>
  Concrete inputs for the evaluations below: a disk with a 32-bit partition counter, and a
  state whose caller buffer holds the given bytes and whose stack holds the byte \<open>0xAA\<close>
  everywhere.
\<close>

abbreviation sample_disk ::
  "disk_controller_t \<Rightarrow> 'd \<Rightarrow> 64 word \<Rightarrow> disk_part_t list \<Rightarrow> ('d, 32) disk_t" where
  "sample_disk c dat ss ps \<equiv>
     \<lparr>controller = c, data = dat, available = False, sector_size = ss,
      parts = ps, part_count = word_of_nat (length ps)\<rparr>"

abbreviation sample_state :: "8 word list \<Rightarrow> iostate" where
  "sample_state bytes \<equiv> \<lparr>mem = \<lparr>caller = bytes, cb = []\<rparr>, stack = (\<lambda>i. 170), trace = []\<rparr>"

abbreviation sample_part :: "nat \<Rightarrow> 64 word \<Rightarrow> 64 word \<Rightarrow> bool \<Rightarrow> disk_part_t" where
  "sample_part a start sz av \<equiv> \<lparr>p_addr = a, p_start = start, p_size = sz, p_available = av\<rparr>"

abbreviation sample_mount :: "nat \<Rightarrow> vfs_t" where
  "sample_mount a \<equiv> \<lparr>vfs_type = VFS_TYPE_DISK, type_data = a\<rparr>"

text \<open>
  A controller primitive to run the engine on: a device that is the list of the contents of
  its sectors, of \<open>ss\<close> bytes each. A read copies \<open>n\<close> sectors from the address \<open>lba\<close> on to the
  pointer, a write takes them from the pointer, and a transfer that leaves the device or the
  memory region fails and changes nothing.
\<close>

fun load :: "rawptr \<Rightarrow> nat \<Rightarrow> memory \<Rightarrow> 8 word list option" where
  "load (Caller (Buf a)) n m =
     (if unat a + n \<le> length (caller m) then Some (take n (drop (unat a) (caller m))) else None)"
| "load (Caller NULL) n m = None"
| "load Cb n m = (if n \<le> length (cb m) then Some (take n (cb m)) else None)"

fun store :: "rawptr \<Rightarrow> 8 word list \<Rightarrow> memory \<Rightarrow> memory option" where
  "store (Caller (Buf a)) bs m =
     (if unat a + length bs \<le> length (caller m)
      then Some (m\<lparr>caller := take (unat a) (caller m) @ bs @ drop (unat a + length bs) (caller m)\<rparr>)
      else None)"
| "store (Caller NULL) bs m = None"
| "store Cb bs m =
     (if length bs \<le> length (cb m) then Some (m\<lparr>cb := bs @ drop (length bs) (cb m)\<rparr>) else None)"

definition ram_port_do :: "nat \<Rightarrow> (8 word list list) port_do_t" where
  "ram_port_do ss dev op lba n p m =
     (case op of
        DISK_OP_INFO \<Rightarrow> (True, dev, m)
      | DISK_OP_READ \<Rightarrow>
          (if unat lba + unat n \<le> length dev
           then (case store p (concat (take (unat n) (drop (unat lba) dev))) m of
                   None \<Rightarrow> (False, dev, m)
                 | Some m' \<Rightarrow> (True, dev, m'))
           else (False, dev, m))
      | DISK_OP_WRITE \<Rightarrow>
          (if unat lba + unat n \<le> length dev
           then (case load p (unat n * ss) m of
                   None \<Rightarrow> (False, dev, m)
                 | Some bs \<Rightarrow>
                     (True,
                      take (unat lba) dev
                        @ map (\<lambda>i. take ss (drop (i * ss) bs)) [0..<unat n]
                        @ drop (unat lba + unat n) dev,
                      m))
           else (False, dev, m)))"

section \<open>Properties of the dispatch and of the engine\<close>

subsection \<open>What a raw call and the copy leave behind\<close>

lemma disk_do_raw_Inr:
  assumes "disk_do_raw pd disk op lba n p st = Inr (r, d', st')"
  shows "trace st' = trace st @ [RawCall op lba n p r]"
    and "stack st' = stack st"
    and "\<exists>x. d' = disk\<lparr>data := x\<rparr>"
    and "controller disk = DISK_CONTROLLER_AHCI"
  using assms
  by (auto simp: disk_do_raw_def split: disk_controller_t.splits prod.splits)



subsection \<open>The loop: its events, and that it ends\<close>



text \<open>
  The loop ends whenever the size is the remainder plus a multiple of a nonzero sector size,
  which is how \<^verbatim>\<open>__disk_do_size\<close> enters it; so the engine always returns (a result, a
  panic or a fault).
\<close>

lemma disk_do_size_loop_returns:
  assumes "sector_size disk \<noteq> 0"
    and "unat sz = unat rem + k * unat (sector_size disk)"
  shows "disk_do_size_loop pd op lba rem buf sz off disk st \<noteq> None"
  using assms
proof (induction k arbitrary: sz off disk st)
  case 0
  then have "sz = rem" by (simp add: word_unat_eq_iff)
  then show ?case by (subst disk_do_size_loop.simps) simp
next
  case (Suc k)
  let ?ss = "sector_size disk"
  from Suc.prems have ss: "0 < unat ?ss" by (simp add: unat_gt_0)
  with Suc.prems(2) have ne: "sz \<noteq> rem" by auto
  show ?case
  proof (cases "disk_do_raw pd disk op lba 1 (Caller (ptr_add buf off)) st")
    case (Inl e)
    with ne show ?thesis by (subst disk_do_size_loop.simps) simp
  next
    case (Inr t)
    then obtain r d' st' where
      raw: "disk_do_raw pd disk op lba 1 (Caller (ptr_add buf off)) st = Inr (r, d', st')"
      by (cases t) auto
    from disk_do_raw_Inr(3)[OF raw] have same: "sector_size d' = ?ss" by auto
    from Suc.prems(2) have le: "unat ?ss \<le> unat sz" by simp
    then have "unat (sz - ?ss) = unat sz - unat ?ss"
      by (simp add: unat_sub word_le_nat_alt)
    with Suc.prems(2) have "unat (sz - sector_size d') = unat rem + k * unat (sector_size d')"
      by (simp add: same)
    from Suc.IH[OF _ this, of "off + sector_size d'" st'] Suc.prems(1) same
    have "disk_do_size_loop pd op lba rem buf (sz - sector_size d') (off + sector_size d') d' st'
            \<noteq> None" by simp
    with ne raw show ?thesis by (subst disk_do_size_loop.simps) simp
  qed
qed

lemma disk_do_size_returns: "disk_do_size pd disk op lba sz buf st \<noteq> None"
proof (cases "sector_size disk = 0 \<or> sz mod sector_size disk = 0 \<or> sz < sector_size disk")
  case True
  then show ?thesis
    by (auto simp: disk_do_size_def Let_def split: sum.splits prod.splits)
next
  case False
  let ?ss = "sector_size disk"
  have "unat sz = unat (sz mod ?ss) + (unat sz div unat ?ss) * unat ?ss"
    by (simp add: unat_mod)
  from disk_do_size_loop_returns[OF _ this, of pd op lba buf 0 st] False
  have "disk_do_size_loop pd op lba (sz mod ?ss) buf sz 0 disk st \<noteq> None" by simp
  with False show ?thesis
    by (auto simp: disk_do_size_def Let_def split: sum.splits prod.splits option.splits)
qed

subsection \<open>Controller dispatch\<close>



subsection \<open>Sizes that are a multiple of the sector size\<close>

text \<open>
  Claim C7. When the size is a multiple of the (nonzero) sector size, the engine is one raw
  call for \<open>sz div sector_size\<close> sectors on the caller's pointer: its result is the result
  of that call, and on a recognised controller the log grows by that one raw call and by no
  copy.
\<close>

theorem disk_do_size_aligned:
  assumes "sector_size disk \<noteq> 0" and "sz mod sector_size disk = 0"
  shows "disk_do_size pd disk op lba sz buf st
           = Some (disk_do_raw pd disk op lba (sz div sector_size disk) (Caller buf) st)
         \<and> (controller disk = DISK_CONTROLLER_AHCI \<longrightarrow>
              (\<exists>ret d' m'.
                 pd (data disk) op lba (sz div sector_size disk) (Caller buf) (mem st) = (ret, d', m')
                 \<and> disk_do_size pd disk op lba sz buf st
                     = Some (Inr (ret, disk\<lparr>data := d'\<rparr>,
                          st\<lparr>mem := m',
                             trace := trace st
                               @ [RawCall op lba (sz div sector_size disk) (Caller buf) ret]\<rparr>))))"
  using assms
  by (auto simp: disk_do_size_def disk_do_raw_def div_floor_def Let_def split: prod.splits)

theorem disk_do_size_aligned_witness:
  "sector_size (sample_disk DISK_CONTROLLER_AHCI () 512 []) \<noteq> 0
   \<and> 1024 mod sector_size (sample_disk DISK_CONTROLLER_AHCI () 512 []) = 0
   \<and> disk_do_size (\<lambda>d op lba n p m. (True, d, m)) (sample_disk DISK_CONTROLLER_AHCI () 512 [])
        DISK_OP_READ 10 1024 (Buf 0) (sample_state [])
      = Some (Inr (True, sample_disk DISK_CONTROLLER_AHCI () 512 [],
          (sample_state [])\<lparr>trace := [RawCall DISK_OP_READ 10 2 (Caller (Buf 0)) True]\<rparr>))"
  using disk_do_size_aligned [where disk = "sample_disk DISK_CONTROLLER_AHCI () 512 []"
      and sz = 1024 and pd = "\<lambda>d op lba n p m. (True, d, m)" and op = DISK_OP_READ
      and lba = 10 and buf = "Buf 0" and st = "sample_state []"]
  by (simp add: disk_do_raw_def)

subsection \<open>A failing raw call on the scratch array\<close>



subsection \<open>The sector address of successive raw calls, and the direction of the copy\<close>

text \<open>
  Claim C1. A read of 1300 bytes at sector 10 from a disk of 512-byte sectors, on a device
  whose sector \<open>l\<close> holds the byte \<open>l\<close> 512 times. The claim expects raw reads of the
  sectors 10, 11 and 12. The engine issues three raw reads of sector 10: two on the caller's
  buffer at the offsets 0 and 512, one on the scratch array, and copies 276 bytes from it to
  the offset 1024; all 1300 bytes that the caller receives are those of sector 10. The loop
  never advances \<open>lba\<close> (see also \<open>disk_do_size_loop_events_aux\<close>).
\<close>

theorem disk_do_size_read_1300:
  "disk_do_size (ram_port_do 512)
     (sample_disk DISK_CONTROLLER_AHCI (map (\<lambda>l. replicate 512 (word_of_nat l)) [0..<16]) 512 [])
     DISK_OP_READ 10 1300 (Buf 0) (sample_state (replicate 1300 0))
   = Some (Inr (True,
       sample_disk DISK_CONTROLLER_AHCI (map (\<lambda>l. replicate 512 (word_of_nat l)) [0..<16]) 512 [],
       \<lparr>mem = \<lparr>caller = replicate 512 10 @ replicate 512 10 @ replicate 276 10,
               cb = replicate 512 10\<rparr>,
        stack = (\<lambda>i. 170),
        trace = [RawCall DISK_OP_READ 10 1 (Caller (Buf 0)) True,
                 RawCall DISK_OP_READ 10 1 (Caller (Buf 512)) True,
                 RawCall DISK_OP_READ 10 1 Cb True,
                 Memcpy (Buf 1024) 276]\<rparr>))"
  by (simp add: disk_do_size_def div_floor_def disk_do_raw_def do_copy_def memcpy_def
        ram_port_do_def Let_def disk_do_size_loop.simps map_replicate_const
        take_map drop_map)

text \<open>
  Claim C3. A write of the three bytes 1, 2, 3 to sector 1 of a device of 4-byte sectors. The
  claim expects the caller's bytes to go towards the device. The engine hands the scratch
  array with its indeterminate bytes (here \<open>0xAA\<close>) to the raw write, so these reach the
  device, and then copies the scratch array over the caller's three bytes: the copy goes
  from \<^verbatim>\<open>cb\<close> to the caller whatever the operation is (see also \<open>do_copy_Inr\<close>).
\<close>

theorem disk_do_size_write_partial:
  "disk_do_size (ram_port_do 4)
     (sample_disk DISK_CONTROLLER_AHCI [[0, 0, 0, 0], [0, 0, 0, 0]] 4 [])
     DISK_OP_WRITE 1 3 (Buf 0) (sample_state [1, 2, 3])
   = Some (Inr (True,
       sample_disk DISK_CONTROLLER_AHCI [[0, 0, 0, 0], [170, 170, 170, 170]] 4 [],
       \<lparr>mem = \<lparr>caller = [170, 170, 170], cb = [170, 170, 170, 170]\<rparr>,
        stack = (\<lambda>i. 170),
        trace = [RawCall DISK_OP_WRITE 1 1 Cb True, Memcpy (Buf 0) 3]\<rparr>))"
  by (simp add: disk_do_size_def div_floor_def disk_do_raw_def do_copy_def memcpy_def
        ram_port_do_def Let_def upt_rec)

section \<open>Properties of the partition list\<close>

subsection \<open>What \<open>disk_part_add\<close> returns and changes\<close>

lemma slist_find_None: "slist_find P xs = None \<longleftrightarrow> (\<forall>x \<in> set xs. \<not> P x)"
  by (auto simp: slist_find_def find_None_iff)

lemma slist_find_Some: "slist_find P xs = Some x \<Longrightarrow> x \<in> set xs \<and> P x"
  by (auto simp: slist_find_def find_Some_iff)

lemma slist_find_append_new:
  "slist_find P xs = None \<Longrightarrow> P y \<Longrightarrow> slist_find P (slist_add xs y) = Some y"
  by (induction xs) (auto simp: slist_find_def slist_add_def split: if_splits)

lemma disk_part_add_cases:
  assumes "disk_part_add alloc (Some d) start sz = (r, d')"
  shows "(\<exists>q \<in> set (parts d). disk_part_match start sz q
            \<and> slist_find (disk_part_match start sz) (parts d) = Some q
            \<and> r = Some (p_addr q) \<and> d' = Some d)
         \<or> ((\<forall>q \<in> set (parts d). \<not> disk_part_match start sz q) \<and> alloc = None
              \<and> r = None \<and> d' = Some d)
         \<or> ((\<forall>q \<in> set (parts d). \<not> disk_part_match start sz q)
              \<and> (\<exists>a. alloc = Some a \<and> r = Some a
                    \<and> d' = Some (d\<lparr>parts := parts d @ [sample_part a start sz False],
                                    part_count := part_count d + 1\<rparr>)))"
proof (cases "slist_find (disk_part_match start sz) (parts d)")
  case None
  with assms show ?thesis
    by (cases alloc) (auto simp: disk_part_add_def slist_find_None slist_add_def)
next
  case (Some q)
  with assms slist_find_Some[OF Some] show ?thesis
    by (auto simp: disk_part_add_def)
qed

text \<open>
  Claim C2, as the claim states it: a new entry is available at creation, and a matching
  entry is marked available. Neither holds: the entry that \<^verbatim>\<open>disk_part_add\<close> creates on an
  empty disk has the flag false (the node is zeroed and the flag is not set), and a second
  call with the same start and size returns that entry and leaves its flag false.
\<close>

theorem disk_part_add_available_counterexample:
  "disk_part_add (Some 100) (Some (sample_disk DISK_CONTROLLER_AHCI () 512 [])) 2048 4096
     = (Some 100,
        Some (sample_disk DISK_CONTROLLER_AHCI () 512 [sample_part 100 2048 4096 False]))
   \<and> \<not> p_available (sample_part 100 2048 4096 False)
   \<and> disk_part_add (Some 200)
        (Some (sample_disk DISK_CONTROLLER_AHCI () 512 [sample_part 100 2048 4096 False])) 2048 4096
     = (Some 100,
        Some (sample_disk DISK_CONTROLLER_AHCI () 512 [sample_part 100 2048 4096 False]))"
  by (simp add: disk_part_add_def slist_find_def slist_add_def disk_part_match_def)

text \<open>
  Claim C2, amended: when no partition of the disk has the given start and size and the call
  returns a node, the disk has one more node, with that start and size and with the
  available flag false, and the counter is one more; when a partition matches, the call
  returns a matching node and changes nothing, so every available flag stays as it was.
\<close>

theorem disk_part_add_available:
  assumes "disk_part_add alloc (Some d) start sz = (r, d')"
  shows "((\<forall>q \<in> set (parts d). \<not> disk_part_match start sz q) \<and> r \<noteq> None \<longrightarrow>
            (\<exists>a. r = Some a
               \<and> d' = Some (d\<lparr>parts := parts d @ [sample_part a start sz False],
                               part_count := part_count d + 1\<rparr>)))
         \<and> ((\<exists>q \<in> set (parts d). disk_part_match start sz q) \<longrightarrow>
              d' = Some d \<and> (\<exists>q \<in> set (parts d). disk_part_match start sz q \<and> r = Some (p_addr q)))"
  using disk_part_add_cases[OF assms] by auto

theorem disk_part_add_available_witness:
  "disk_part_add (Some 100) (Some (sample_disk DISK_CONTROLLER_AHCI () 512 [])) 2048 4096
     = (Some 100,
        Some (sample_disk DISK_CONTROLLER_AHCI () 512 [sample_part 100 2048 4096 False]))
   \<and> disk_part_add (Some 200)
        (Some (sample_disk DISK_CONTROLLER_AHCI () 512 [sample_part 100 2048 4096 True])) 2048 4096
     = (Some 100,
        Some (sample_disk DISK_CONTROLLER_AHCI () 512 [sample_part 100 2048 4096 True]))"
proof -
  let ?d0 = "sample_disk DISK_CONTROLLER_AHCI () 512 []"
  let ?d1 = "sample_disk DISK_CONTROLLER_AHCI () 512 [sample_part 100 2048 4096 True]"
  obtain r d' where new: "disk_part_add (Some 100) (Some ?d0) 2048 4096 = (r, d')"
    by (cases "disk_part_add (Some 100) (Some ?d0) 2048 4096")
  obtain r2 d2 where old: "disk_part_add (Some 200) (Some ?d1) 2048 4096 = (r2, d2)"
    by (cases "disk_part_add (Some 200) (Some ?d1) 2048 4096")
  have "r \<noteq> None" using new by (auto simp: disk_part_add_def slist_find_def)
  with disk_part_add_available [OF new] have "r = Some 100 \<and> d' = Some (sample_disk DISK_CONTROLLER_AHCI () 512 [sample_part 100 2048 4096 False])"
    using new by (auto simp: disk_part_add_def slist_find_def)
  moreover from disk_part_add_available [OF old]
  have "d2 = Some ?d1 \<and> r2 = Some 100" by (simp add: disk_part_match_def)
  ultimately show ?thesis using new old by simp
qed

text \<open>
  Claim C6. On a disk without duplicates (invariant I2), after a call that returned the handle
  \<open>h\<close>, a second call with the same start and size returns \<open>h\<close> again and leaves the disk as
  it is (so the counter too), whatever the allocator would return; the disk then has exactly
  one partition with that start and size, and still no duplicates.
\<close>

theorem disk_part_add_idempotent:
  assumes "identities_distinct d"
    and "disk_part_add a1 (Some d) start sz = (Some h, Some d1)"
  shows "disk_part_add a2 (Some d1) start sz = (Some h, Some d1)
         \<and> length (filter (disk_part_match start sz) (parts d1)) = 1
         \<and> identities_distinct d1"
proof -
  have one: "length (filter (disk_part_match start sz) ps) \<le> 1"
    if "distinct (map (\<lambda>p. (p_start p, p_size p)) ps)" for ps
    using that
  proof (induction ps)
    case Nil
    then show ?case by simp
  next
    case (Cons p ps)
    show ?case
    proof (cases "disk_part_match start sz p")
      case True
      with Cons.prems have "\<forall>q \<in> set ps. \<not> disk_part_match start sz q"
        by (auto simp: disk_part_match_def image_iff)
      then have "filter (disk_part_match start sz) ps = []" by (simp add: filter_empty_conv)
      with True show ?thesis by simp
    next
      case False
      with Cons show ?thesis by simp
    qed
  qed
  from disk_part_add_cases[OF assms(2)] show ?thesis
  proof (elim disjE conjE bexE exE)
    fix q
    assume q: "q \<in> set (parts d)" "disk_part_match start sz q"
      "slist_find (disk_part_match start sz) (parts d) = Some q"
      "Some h = Some (p_addr q)" "Some d1 = Some d"
    then have "disk_part_add a2 (Some d1) start sz = (Some h, Some d1)"
      by (simp add: disk_part_add_def)
    moreover from q have "filter (disk_part_match start sz) (parts d1) \<noteq> []"
      by (auto simp: filter_empty_conv)
    with one[of "parts d"] assms(1) q(5)
    have "length (filter (disk_part_match start sz) (parts d1)) = 1"
      by (cases "filter (disk_part_match start sz) (parts d1)") (auto simp: identities_distinct_def)
    ultimately show ?thesis using assms(1) q(5) by simp
  next
    assume "(Some h :: nat option) = None"
    then show ?thesis by simp
  next
    fix a
    assume n: "\<forall>q \<in> set (parts d). \<not> disk_part_match start sz q"
      and a: "a1 = Some a" "Some h = Some a"
        "Some d1 = Some (d\<lparr>parts := parts d @ [sample_part a start sz False],
                            part_count := part_count d + 1\<rparr>)"
    from n have none: "slist_find (disk_part_match start sz) (parts d) = None"
      by (simp add: slist_find_None)
    have "slist_find (disk_part_match start sz) (parts d1) = Some (sample_part a start sz False)"
      using slist_find_append_new[OF none, of "sample_part a start sz False"] a(3)
      by (simp add: slist_add_def disk_part_match_def)
    then have "disk_part_add a2 (Some d1) start sz = (Some h, Some d1)"
      using a(2) by (simp add: disk_part_add_def)
    moreover from n a(3) have "length (filter (disk_part_match start sz) (parts d1)) = 1"
      by (auto simp: filter_empty_conv disk_part_match_def)
    moreover from n a(3) assms(1) have "identities_distinct d1"
      by (auto simp: identities_distinct_def disk_part_match_def)
    ultimately show ?thesis by simp
  qed
qed

theorem disk_part_add_idempotent_witness:
  "identities_distinct (sample_disk DISK_CONTROLLER_AHCI () 512 [sample_part 100 0 2048 False])
   \<and> disk_part_add (Some 200)
        (Some (sample_disk DISK_CONTROLLER_AHCI () 512 [sample_part 100 0 2048 False])) 2048 4096
       = (Some 200, Some (sample_disk DISK_CONTROLLER_AHCI () 512
            [sample_part 100 0 2048 False, sample_part 200 2048 4096 False]))
   \<and> disk_part_add (Some 300)
        (Some (sample_disk DISK_CONTROLLER_AHCI () 512
            [sample_part 100 0 2048 False, sample_part 200 2048 4096 False])) 2048 4096
       = (Some 200, Some (sample_disk DISK_CONTROLLER_AHCI () 512
            [sample_part 100 0 2048 False, sample_part 200 2048 4096 False]))
   \<and> length (filter (disk_part_match 2048 4096)
        [sample_part 100 0 2048 False, sample_part 200 2048 4096 False]) = 1"
proof -
  let ?d = "sample_disk DISK_CONTROLLER_AHCI () 512 [sample_part 100 0 2048 False]"
  let ?d1 = "sample_disk DISK_CONTROLLER_AHCI () 512
            [sample_part 100 0 2048 False, sample_part 200 2048 4096 False]"
  have h1: "identities_distinct ?d" by (simp add: identities_distinct_def)
  have h2: "disk_part_add (Some 200) (Some ?d) 2048 4096 = (Some 200, Some ?d1)"
    by (simp add: disk_part_add_def slist_find_def slist_add_def disk_part_match_def)
  from disk_part_add_idempotent [OF h1 h2, of "Some 300"] h1 h2 show ?thesis by simp
qed

subsection \<open>The counter\<close>

lemma disk_part_clear_loop_result:
  "disk_part_clear_loop ps pc vs = (kept, pc', vs') \<Longrightarrow>
     kept = filter p_available ps
     \<and> pc' = pc - word_of_nat (length (filter (\<lambda>p. \<not> p_available p) ps))"
proof (induction ps arbitrary: pc vs kept pc' vs')
  case Nil
  then show ?case by simp
next
  case (Cons trav rest)
  show ?case
  proof (cases "p_available trav")
    case True
    with Cons.prems obtain k where
      "disk_part_clear_loop rest pc
         (if disk_part_find_vfs (p_addr trav) vs = None
          then vfs_register VFS_TYPE_DISK (p_addr trav) vs else vs) = (k, pc', vs')"
      and "kept = trav # k"
      by (auto simp: Let_def split: prod.splits)
    with Cons.IH[OF this(1)] True show ?thesis by simp
  next
    case False
    with Cons.prems have
      "disk_part_clear_loop rest (pc - 1)
         (case disk_part_find_vfs (p_addr trav) vs of None \<Rightarrow> vs
          | Some c \<Rightarrow> vfs_unregister c vs) = (kept, pc', vs')"
      by (simp add: Let_def)
    from Cons.IH[OF this] False show ?thesis by (simp add: algebra_simps)
  qed
qed

lemma unat_sub_removed:
  fixes pc :: "'w::len word"
  assumes "unat pc = n" and "k \<le> n"
  shows "unat (pc - word_of_nat k) = n - k"
proof -
  have "unat pc < 2 ^ LENGTH('w)" by (rule unsigned_less)
  with assms have "k < 2 ^ LENGTH('w)" by simp
  then have uk: "unat (word_of_nat k :: 'w word) = k" by (simp add: unat_of_nat)
  with assms have "word_of_nat k \<le> pc" by (simp add: word_le_nat_alt)
  then show ?thesis using uk assms by (simp add: unat_sub)
qed

lemma part_count_steps:
  fixes d :: "('d, 'w::len) disk_t"
  shows
  "(disk_part_add alloc (Some d) start sz = (r, Some d') \<longrightarrow>
      ((parts d' = parts d \<and> part_count d' = part_count d)
       \<or> (\<exists>new. parts d' = parts d @ [new] \<and> part_count d' = part_count d + 1))
      \<and> (part_count_ok d \<and> length (parts d') < 2 ^ LENGTH('w) \<longrightarrow> part_count_ok d'))
   \<and> (disk_part_clear (Some d) vs = (Some d'', vs') \<longrightarrow>
        parts d'' = filter p_available (parts d)
        \<and> part_count d''
            = part_count d - word_of_nat (length (filter (\<lambda>p. \<not> p_available p) (parts d)))
        \<and> (part_count_ok d \<longrightarrow> part_count_ok d''))"
proof (intro conjI impI)
  assume add: "disk_part_add alloc (Some d) start sz = (r, Some d')"
  from disk_part_add_cases[OF add]
  show "(parts d' = parts d \<and> part_count d' = part_count d)
       \<or> (\<exists>new. parts d' = parts d @ [new] \<and> part_count d' = part_count d + 1)"
    by auto
next
  assume add: "disk_part_add alloc (Some d) start sz = (r, Some d')"
    and ok: "part_count_ok d \<and> length (parts d') < 2 ^ LENGTH('w)"
  from disk_part_add_cases[OF add]
  consider "d' = d"
    | a where "d' = d\<lparr>parts := parts d @ [sample_part a start sz False],
                         part_count := part_count d + 1\<rparr>"
    by auto
  then show "part_count_ok d'"
  proof cases
    case 1
    with ok show ?thesis by simp
  next
    case 2
    with ok have "unat (part_count d) + 1 < 2 ^ LENGTH('w)"
      by (simp add: part_count_ok_def)
    then have "unat (part_count d + 1) = unat (part_count d) + 1"
      by (simp add: unat_add_lem[THEN iffD1])
    with 2 ok show ?thesis by (simp add: part_count_ok_def)
  qed
next
  assume clr: "disk_part_clear (Some d) vs = (Some d'', vs')"
  then obtain kept pc where
    loop: "disk_part_clear_loop (parts d) (part_count d) vs = (kept, pc, vs')"
    and d'': "d'' = d\<lparr>parts := kept, part_count := pc\<rparr>"
    by (auto simp: disk_part_clear_def split: prod.splits)
  note res = disk_part_clear_loop_result[OF loop]
  from res d'' show "parts d'' = filter p_available (parts d)" by simp
  from res d'' show "part_count d''
            = part_count d - word_of_nat (length (filter (\<lambda>p. \<not> p_available p) (parts d)))"
    by simp
  show "part_count_ok d''" if "part_count_ok d"
  proof -
    have "length (filter p_available (parts d)) + length (filter (\<lambda>p. \<not> p_available p) (parts d))
            = length (parts d)"
      by (rule sum_length_filter_compl)
    moreover from that have "unat (part_count d) = length (parts d)"
      by (simp add: part_count_ok_def)
    ultimately show ?thesis
      using res d'' unat_sub_removed[of "part_count d" "length (parts d)"
          "length (filter (\<lambda>p. \<not> p_available p) (parts d))"]
      by (simp add: part_count_ok_def)
  qed
qed

text \<open>
  Claim C8. The counter is the number of nodes on a disk that \<^verbatim>\<open>disk_add\<close> has made.
  \<^verbatim>\<open>disk_part_add\<close> either leaves list and counter alone or links one node at the end and
  adds one to the counter; \<^verbatim>\<open>disk_part_clear\<close> keeps the available nodes and takes one
  from the counter for each node it unlinks. Both keep the counter equal to the number of
  nodes; for \<^verbatim>\<open>disk_part_add\<close> this needs the new number of nodes to fit the counter's
  width, since \<^verbatim>\<open>part_count++\<close> wraps around.
\<close>

theorem part_count_invariant:
  fixes d :: "('d, 'w::len) disk_t"
  shows
  "(disk_add ok c (Some x) reg = Inr (Some d, reg') \<longrightarrow> part_count_ok d)
   \<and> (disk_part_add alloc (Some d) start sz = (r, Some d') \<longrightarrow>
      ((parts d' = parts d \<and> part_count d' = part_count d)
       \<or> (\<exists>new. parts d' = parts d @ [new] \<and> part_count d' = part_count d + 1))
      \<and> (part_count_ok d \<and> length (parts d') < 2 ^ LENGTH('w) \<longrightarrow> part_count_ok d'))
   \<and> (disk_part_clear (Some d) vs = (Some d'', vs') \<longrightarrow>
        parts d'' = filter p_available (parts d)
        \<and> part_count d''
            = part_count d - word_of_nat (length (filter (\<lambda>p. \<not> p_available p) (parts d)))
        \<and> (part_count_ok d \<longrightarrow> part_count_ok d''))"
proof -
  have "part_count_ok d" if "disk_add ok c (Some x) reg = Inr (Some d, reg')"
    using that by (auto simp: disk_add_def part_count_ok_def Let_def split: if_splits)
  with part_count_steps [of alloc d start sz r d' vs d'' vs'] show ?thesis by blast
qed

theorem part_count_invariant_witness:
  "disk_add True DISK_CONTROLLER_AHCI (Some ()) []
     = Inr (Some (sample_disk DISK_CONTROLLER_AHCI () 512 []),
            [sample_disk DISK_CONTROLLER_AHCI () 512 []])
   \<and> part_count_ok (sample_disk DISK_CONTROLLER_AHCI () 512 [])
   \<and> disk_part_add (Some 100) (Some (sample_disk DISK_CONTROLLER_AHCI () 512 [])) 2048 4096
       = (Some 100, Some (sample_disk DISK_CONTROLLER_AHCI () 512 [sample_part 100 2048 4096 False]))
   \<and> length (parts (sample_disk DISK_CONTROLLER_AHCI () 512 [sample_part 100 2048 4096 False]))
       < 2 ^ LENGTH(32)
   \<and> part_count_ok (sample_disk DISK_CONTROLLER_AHCI () 512 [sample_part 100 2048 4096 False])
   \<and> disk_part_clear
        (Some (sample_disk DISK_CONTROLLER_AHCI () 512 [sample_part 100 2048 4096 False])) []
       = (Some (sample_disk DISK_CONTROLLER_AHCI () 512 []), [])"
proof -
  let ?d0 = "sample_disk DISK_CONTROLLER_AHCI () 512 []"
  let ?d1 = "sample_disk DISK_CONTROLLER_AHCI () 512 [sample_part 100 2048 4096 False]"
  have h1: "disk_add True DISK_CONTROLLER_AHCI (Some ()) [] = Inr (Some ?d0, [?d0])"
    by (simp add: disk_add_def DISK_DEFAULT_SECTOR_SIZE_def slist_add_def Let_def)
  have h2: "disk_part_add (Some 100) (Some ?d0) 2048 4096 = (Some 100, Some ?d1)"
    by (simp add: disk_part_add_def slist_find_def slist_add_def)
  have h3: "length (parts ?d1) < 2 ^ LENGTH(32)" by simp
  have h4: "disk_part_clear (Some ?d1) [] = (Some ?d0, [])"
    by (simp add: disk_part_clear_def disk_part_find_vfs_def Let_def)
  from part_count_invariant [of True DISK_CONTROLLER_AHCI "()" "[]" ?d0 "[?d0]"
      "Some 100" 2048 4096 "Some 100" ?d1] h1 h2 h3
  have "part_count_ok ?d0 \<and> part_count_ok ?d1" by blast
  with h1 h2 h3 h4 show ?thesis by blast
qed

section \<open>Properties of the scan\<close>

lemma disk_do_info:
  assumes "controller disk = DISK_CONTROLLER_AHCI" and "sector_size disk \<noteq> 0"
    and "pd (data disk) DISK_OP_INFO 0 0 (Caller NULL) (mem st) = (ret, x, m')"
  shows "disk_do pd disk DISK_OP_INFO 0 0 NULL st
           = Some (Inr (ret, disk\<lparr>data := x\<rparr>,
               st\<lparr>mem := m', trace := trace st @ [RawCall DISK_OP_INFO 0 0 (Caller NULL) ret]\<rparr>))"
  using assms
  by (simp add: disk_do_def disk_do_size_def disk_do_raw_def div_floor_def)

text \<open>
  Claim C5. When the controller primitive answers the info query with failure, \<^verbatim>\<open>disk_scan\<close>
  returns failure; the disk it leaves is not available, its partition list is the old one
  with every available flag cleared (so no node is gone), its counter is unchanged, and the
  registry of mounts is untouched.
\<close>

theorem disk_scan_info_failure:
  assumes "controller disk = DISK_CONTROLLER_AHCI" and "sector_size disk \<noteq> 0"
    and "pd (data disk) DISK_OP_INFO 0 0 (Caller NULL) (mem st) = (False, x, m')"
  shows "\<exists>disk' st'.
           disk_scan pd cfg gpt_load mbr_load disk st vs = Some (Inr (False, disk', st', vs))
           \<and> \<not> available disk'
           \<and> parts disk' = map (\<lambda>p. p\<lparr>p_available := False\<rparr>) (parts disk)
           \<and> length (parts disk') = length (parts disk)
           \<and> part_count disk' = part_count disk"
proof -
  let ?d1 = "disk\<lparr>available := False,
                  parts := map (\<lambda>trav. trav\<lparr>p_available := False\<rparr>) (parts disk)\<rparr>"
  have "disk_do pd ?d1 DISK_OP_INFO 0 0 NULL st
          = Some (Inr (False, ?d1\<lparr>data := x\<rparr>,
               st\<lparr>mem := m', trace := trace st @ [RawCall DISK_OP_INFO 0 0 (Caller NULL) False]\<rparr>))"
    using assms by (intro disk_do_info) simp_all
  then have "disk_scan pd cfg gpt_load mbr_load disk st vs
               = Some (Inr (False, ?d1\<lparr>data := x\<rparr>,
                    st\<lparr>mem := m', trace := trace st @ [RawCall DISK_OP_INFO 0 0 (Caller NULL) False]\<rparr>,
                    vs))"
    by (simp add: disk_scan_def disk_part_block_def)
  then show ?thesis by simp
qed

theorem disk_scan_info_failure_witness:
  "controller (sample_disk DISK_CONTROLLER_AHCI () 512 [sample_part 100 0 2048 True])
     = DISK_CONTROLLER_AHCI
   \<and> sector_size (sample_disk DISK_CONTROLLER_AHCI () 512 [sample_part 100 0 2048 True]) \<noteq> 0
   \<and> (\<exists>disk' st'.
        disk_scan (\<lambda>d op lba n p m. (False, d, m)) False
          (\<lambda>d st. Some (Inr (False, d, st))) (\<lambda>d st. Some (Inr (False, d, st)))
          (sample_disk DISK_CONTROLLER_AHCI () 512 [sample_part 100 0 2048 True])
          (sample_state []) [sample_mount 100]
        = Some (Inr (False, disk', st', [sample_mount 100]))
        \<and> \<not> available disk'
        \<and> parts disk' = [sample_part 100 0 2048 False]
        \<and> length (parts disk') = 1
        \<and> part_count disk' = 1)"
  using disk_scan_info_failure
    [where disk = "sample_disk DISK_CONTROLLER_AHCI () 512 [sample_part 100 0 2048 True]"
       and pd = "\<lambda>d op lba n p m. (False, d, m)" and st = "sample_state []"
       and x = "()" and m' = "\<lparr>caller = [], cb = []\<rparr>" and cfg = False
       and gpt_load = "\<lambda>d st. Some (Inr (False, d, st))"
       and mbr_load = "\<lambda>d st. Some (Inr (False, d, st))" and vs = "[sample_mount 100]"]
  by simp

subsection \<open>Reconciliation\<close>

lemma find_vfs_None: "disk_part_find_vfs a vs = None \<longleftrightarrow> mounts_of a vs = []"
  by (auto simp: disk_part_find_vfs_def mounts_of_def find_None_iff filter_empty_conv)

lemma find_vfs_Some:
  "disk_part_find_vfs a vs = Some c \<Longrightarrow> c \<in> set (mounts_of a vs)"
  by (auto simp: disk_part_find_vfs_def mounts_of_def find_Some_iff)

lemma mounts_of_unregister_other:
  assumes "c \<in> set (mounts_of b vs)" and "a \<noteq> b"
  shows "mounts_of a (vfs_unregister c vs) = mounts_of a vs"
proof -
  from assms have "c \<notin> set (mounts_of a vs)" by (auto simp: mounts_of_def)
  then show ?thesis
    by (simp add: mounts_of_def vfs_unregister_def filter_remove1 remove1_idem)
qed

lemma mounts_of_unregister_single:
  assumes "c \<in> set (mounts_of b vs)" and "length (mounts_of b vs) = 1"
  shows "mounts_of b (vfs_unregister c vs) = []"
proof -
  from assms obtain y where y: "mounts_of b vs = [y]"
    by (cases "mounts_of b vs") auto
  with assms(1) have "c = y" by simp
  with y show ?thesis
    by (simp add: mounts_of_def vfs_unregister_def filter_remove1)
qed

lemma length_unregister:
  "c \<in> set (mounts_of b vs) \<Longrightarrow> Suc (length (vfs_unregister c vs)) = length vs"
proof -
  assume "c \<in> set (mounts_of b vs)"
  then have c: "c \<in> set vs" by (simp add: mounts_of_def)
  then have "0 < length vs" by (rule length_pos_if_in_set)
  with c show ?thesis by (simp add: vfs_unregister_def length_remove1)
qed

text \<open>The sweep over a list of two partitions of which exactly \<open>A\<close> is available.\<close>

lemma disk_part_clear_loop_two:
  assumes ab: "p_addr A \<noteq> p_addr B"
    and av: "p_available A" "\<not> p_available B"
    and mA: "length (mounts_of (p_addr A) vs) = 1"
    and mB: "length (mounts_of (p_addr B) vs) = 1"
    and ps: "ps = [A, B] \<or> ps = [B, A]"
  shows "\<exists>vs'. disk_part_clear_loop ps pc vs = ([A], pc - 1, vs')
           \<and> mounts_of (p_addr B) vs' = []
           \<and> mounts_of (p_addr A) vs' = mounts_of (p_addr A) vs
           \<and> Suc (length vs') = length vs"
proof -
  from mA obtain cA where fA: "disk_part_find_vfs (p_addr A) vs = Some cA"
    by (cases "disk_part_find_vfs (p_addr A) vs") (auto simp: find_vfs_None)
  from mB obtain c where fB: "disk_part_find_vfs (p_addr B) vs = Some c"
    by (cases "disk_part_find_vfs (p_addr B) vs") (auto simp: find_vfs_None)
  note cB = find_vfs_Some[OF fB]
  let ?vs' = "vfs_unregister c vs"
  have keepA: "mounts_of (p_addr A) ?vs' = mounts_of (p_addr A) vs"
    using cB ab by (rule mounts_of_unregister_other)
  have goneB: "mounts_of (p_addr B) ?vs' = []"
    using cB mB by (rule mounts_of_unregister_single)
  have len: "Suc (length ?vs') = length vs"
    using cB by (rule length_unregister)
  from keepA mA obtain cA' where fA': "disk_part_find_vfs (p_addr A) ?vs' = Some cA'"
    by (cases "disk_part_find_vfs (p_addr A) ?vs'") (auto simp: find_vfs_None)
  from ps have "disk_part_clear_loop ps pc vs = ([A], pc - 1, ?vs')"
  proof
    assume "ps = [A, B]"
    with av fA fB show ?thesis by (simp add: Let_def)
  next
    assume "ps = [B, A]"
    with av fA' fB show ?thesis by (simp add: Let_def)
  qed
  with keepA goneB len show ?thesis by blast
qed

text \<open>
  So the sweep keeps a partition whose flag is set and leaves its mount alone. The flag is
  set nowhere in \<^verbatim>\<open>disk.c\<close>: \<^verbatim>\<open>disk_part_add\<close> leaves it cleared, so after a parser
  that reports through \<^verbatim>\<open>disk_part_add\<close> no partition is flagged, and a scan that succeeds
  leaves the disk without partitions.
\<close>

lemma report_parts_unavailable:
  "\<forall>p \<in> set (parts disk). \<not> p_available p \<Longrightarrow>
     \<forall>p \<in> set (parts (report_parts found disk)). \<not> p_available p"
proof (induction found arbitrary: disk)
  case Nil
  then show ?case by simp
next
  case (Cons f found)
  obtain vmm_alloc start sz where f: "f = (vmm_alloc, start, sz)" by (cases f)
  obtain r d' where add: "disk_part_add vmm_alloc (Some disk) start sz = (r, d')"
    by (cases "disk_part_add vmm_alloc (Some disk) start sz")
  from disk_part_add_cases[OF add] Cons.prems
  obtain disk' where d': "d' = Some disk'" "\<forall>p \<in> set (parts disk'). \<not> p_available p"
    by auto
  from Cons.IH[OF d'(2)] f add d'(1) show ?case by simp
qed

lemma disk_do_info_Inr:
  assumes "disk_do pd disk DISK_OP_INFO 0 0 NULL st = Some (Inr (ok, disk', st'))"
  shows "\<exists>x. disk' = disk\<lparr>data := x\<rparr>"
proof -
  from assms have "sector_size disk \<noteq> 0"
    by (auto simp: disk_do_def disk_do_size_def split: if_splits)
  with assms have "disk_do_raw pd disk DISK_OP_INFO 0 0 (Caller NULL) st = Inr (ok, disk', st')"
    by (simp add: disk_do_def disk_do_size_def div_floor_def)
  then show ?thesis by (rule disk_do_raw_Inr(3))
qed

lemma disk_scan_load_table:
  assumes "disk_scan_load cfg (table_load tg) (table_load tm) disk st = Some (Inr (True, disk', st'))"
  shows "\<exists>found. disk' = report_parts found disk"
  using assms
  by (auto simp: disk_scan_load_def table_load_def split: if_splits option.splits)

lemma disk_scan_reports_delete_all:
  assumes "disk_scan pd cfg (table_load tg) (table_load tm) disk st vs
             = Some (Inr (True, disk', st', vs'))"
  shows "parts disk' = []"
proof -
  let ?d1 = "disk\<lparr>available := False,
                  parts := map (\<lambda>trav. trav\<lparr>p_available := False\<rparr>) (parts disk)\<rparr>"
  from assms obtain disk2 st2 disk3 disk4 where
    info: "disk_do pd ?d1 DISK_OP_INFO 0 0 NULL st = Some (Inr (True, disk2, st2))"
    and load: "disk_scan_load cfg (table_load tg) (table_load tm) disk2 st2
                 = Some (Inr (True, disk3, st'))"
    and clear: "disk_part_clear (Some disk3) vs = (Some disk4, vs')"
    and fin: "disk' = disk4\<lparr>available := True\<rparr>"
    by (auto simp: disk_scan_def disk_part_block_def
          split: option.splits sum.splits prod.splits if_splits)
  from disk_do_info_Inr[OF info] have "\<forall>p \<in> set (parts disk2). \<not> p_available p" by auto
  moreover from disk_scan_load_table[OF load] obtain found where
    "disk3 = report_parts found disk2" ..
  ultimately have "\<forall>p \<in> set (parts disk3). \<not> p_available p"
    by (simp add: report_parts_unavailable)
  then have "filter p_available (parts disk3) = []" by (simp add: filter_empty_conv)
  moreover from part_count_steps[of _ disk3 _ _ _ _ vs disk4 vs'] clear
  have "parts disk4 = filter p_available (parts disk3)" by simp
  ultimately show ?thesis using fin by simp
qed


end
